theory Spec2Isabelle
  imports Main "HOL-Library.Char_ord" "HOL-Library.List_Lexorder" "HOL-Library.Multiset"
begin

section \<open>Strings\<close>

text \<open>
  The requirement text and every tag of the program are Python \<open>str\<close> values. They are
  modelled as \<open>string\<close>, one \<open>char\<close> per code point, so that a text of the model is a
  text whose code points are below 256 (ASCII and the Latin-1 supplement). The keywords,
  tags and narrative blocks of \<open>app.py\<close> that the model uses are all ASCII. Strings are
  compared as Python compares them: lexicographically, by code point.
\<close>

text \<open>
  \<open>c.lower()\<close> on the code points below 256: the ASCII capitals and the Latin-1 capitals
  (\<open>0xC0\<close> to \<open>0xDE\<close>, without the multiplication sign \<open>0xD7\<close>) move up by 32, every
  other code point stays.
\<close>

definition lower_char :: "char \<Rightarrow> char" where
  "lower_char c =
     (if (CHR ''A'' \<le> c \<and> c \<le> CHR ''Z'') \<or> (CHR 0xC0 \<le> c \<and> c \<le> CHR 0xD6)
         \<or> (CHR 0xD8 \<le> c \<and> c \<le> CHR 0xDE)
      then char_of (of_char c + (32::nat)) else c)"

text \<open>
  \<open>c.upper()\<close>; the program applies it to its four compliance tokens only, which are
  ASCII, so that the ASCII letters are all that is modelled.
\<close>

definition upper_char :: "char \<Rightarrow> char" where
  "upper_char c =
     (if CHR ''a'' \<le> c \<and> c \<le> CHR ''z'' then char_of (of_char c - (32::nat)) else c)"

text \<open>\<open>s.lower()\<close> and \<open>s.upper()\<close>.\<close>

definition str_lower :: "string \<Rightarrow> string" where
  "str_lower s = map lower_char s"

definition str_upper :: "string \<Rightarrow> string" where
  "str_upper s = map upper_char s"

text \<open>\<open>t.startswith(kw)\<close>, and \<open>kw in t\<close>: \<open>kw\<close> occurs in \<open>t\<close> as a contiguous substring.\<close>

fun starts_with :: "string \<Rightarrow> string \<Rightarrow> bool" where
  "starts_with [] t = True"
| "starts_with (k # ks) [] = False"
| "starts_with (k # ks) (c # cs) = (k = c \<and> starts_with ks cs)"

fun str_in :: "string \<Rightarrow> string \<Rightarrow> bool" where
  "str_in kw [] = (kw = [])"
| "str_in kw (c # cs) = (starts_with kw (c # cs) \<or> str_in kw cs)"

text \<open>\<open>sep.join(parts)\<close>.\<close>

fun join :: "string \<Rightarrow> string list \<Rightarrow> string" where
  "join sep [] = []"
| "join sep [x] = x"
| "join sep (x # y # ys) = x @ sep @ join sep (y # ys)"

section \<open>The keyword registries\<close>

text \<open>
  Python dictionaries iterate in insertion order, so the two registries are association
  lists in the order of their literals.
\<close>

definition MODULE_KEYWORDS :: "(string \<times> string list) list" where
  "MODULE_KEYWORDS =
    [(''FI'', [''finance'', ''ledger'', ''invoice'', ''tax'', ''closing'']),
     (''MM'', [''procure'', ''procurement'', ''purchase'', ''supplier'', ''inventory'']),
     (''SD'', [''sales'', ''order'', ''customer'', ''delivery'', ''billing'']),
     (''PP'', [''production'', ''shop'', ''mrp'', ''bom'', ''routing'']),
     (''QM'', [''quality'', ''inspection'', ''defect'']),
     (''PM'', [''maintenance'', ''asset'', ''breakdown'']),
     (''EWM'', [''warehouse'', ''wms'', ''picking'', ''putaway'']),
     (''BW/4HANA'', [''analytics'', ''bi'', ''report'', ''kpi'', ''bw/4hana'']),
     (''Fiori'', [''fiori'', ''mobile'', ''ui'']),
     (''IBP'', [''forecast'', ''planning'', ''ibp'']),
     (''TM'', [''freight'', ''carrier'', ''transport'']),
     (''MDG'', [''master data'', ''governance'', ''mdg'']),
     (''S/4HANA'', [''s/4hana''])]"

definition EXT_SYSTEMS :: "(string \<times> string list) list" where
  "EXT_SYSTEMS =
    [(''Salesforce CRM'', [''salesforce'']),
     (''Oracle DB (Legacy)'', [''oracle'']),
     (''3PL / Logistics'', [''3pl'', ''logistics provider'']),
     (''E-commerce'', [''shopify'', ''magento'', ''e-commerce'', ''ecommerce'']),
     (''IoT Gateway'', [''iot'', ''sensor'', ''plc'']),
     (''POS'', [''pos'']),
     (''EHR'', [''ehr'', ''hl7'', ''fhir''])]"

text \<open>\<open>any(kw in t for kw in kws)\<close>.\<close>

definition any_kw_in :: "string list \<Rightarrow> string \<Rightarrow> bool" where
  "any_kw_in kws t = list_ex (\<lambda>kw. str_in kw t) kws"

section \<open>The profile\<close>

record profile =
  modules :: "string list"
  external :: "string list"
  hosting :: string
  compliance :: "string list"
  users :: int

text \<open>
  The loop of \<open>extract\<close> over \<open>MODULE_KEYWORDS.items()\<close>, adding to the set \<open>modules\<close>,
  followed by the two branches that add the core tags.
\<close>

definition detect_modules :: "string \<Rightarrow> string set" where
  "detect_modules t =
     fold (\<lambda>(m, kws) ms. if any_kw_in kws t then insert m ms else ms) MODULE_KEYWORDS {}"

definition add_core :: "string set \<Rightarrow> string set" where
  "add_core ms =
     (if ms \<noteq> {} then insert ''Fiori'' (insert ''S/4HANA'' ms)
      else ms \<union> set [''S/4HANA'', ''Fiori''])"

definition detect_externals :: "string \<Rightarrow> string list" where
  "detect_externals t = map fst (filter (\<lambda>(name, kws). any_kw_in kws t) EXT_SYSTEMS)"

text \<open>The four \<open>if\<close> statements on \<open>hosting\<close>, each overwriting the variable.\<close>

definition classify_hosting :: "string \<Rightarrow> string" where
  "classify_hosting t =
     (let hosting = ''S/4HANA Cloud'';
          hosting = (if str_in ''on-prem'' t \<or> str_in ''on prem'' t then ''On-Prem'' else hosting);
          hosting = (if str_in ''azure'' t then ''Azure Cloud'' else hosting);
          hosting = (if str_in ''aws'' t then ''AWS Cloud'' else hosting);
          hosting = (if str_in ''hybrid'' t then ''Hybrid'' else hosting)
      in hosting)"

definition detect_compliance :: "string \<Rightarrow> string list" where
  "detect_compliance t =
     fold (\<lambda>word cs. if str_in word t then cs @ [str_upper word] else cs)
       [''gdpr'', ''hipaa'', ''pci-dss'', ''iso''] []"

section \<open>The user-scale hint\<close>

text \<open>
  \<open>re.findall(r"\b(\d{3,6})\b", t)\<close>, a pattern on \<open>str\<close>, so that its classes are the
  Unicode ones. Below 256, \<open>\d\<close> is one of the ten ASCII digits, and \<open>\w\<close> is an
  alphanumeric character or the underscore: the ASCII letters and digits, the ordinal
  indicators \<open>0xAA\<close> and \<open>0xBA\<close>, the superscript digits \<open>0xB2\<close>, \<open>0xB3\<close> and
  \<open>0xB9\<close>, the micro sign \<open>0xB5\<close>, the fractions \<open>0xBC\<close> to \<open>0xBE\<close>, and the Latin-1
  letters \<open>0xC0\<close> to \<open>0xFF\<close> without the multiplication sign \<open>0xD7\<close> and the division
  sign \<open>0xF7\<close>. \<open>\b\<close> holds at position \<open>i\<close> when exactly one of the characters before
  and after \<open>i\<close> is a word character, a missing character counting as not one.
\<close>

definition is_digit :: "char \<Rightarrow> bool" where
  "is_digit c = (CHR ''0'' \<le> c \<and> c \<le> CHR ''9'')"

definition is_word :: "char \<Rightarrow> bool" where
  "is_word c =
     (is_digit c \<or> (CHR ''a'' \<le> c \<and> c \<le> CHR ''z'') \<or> (CHR ''A'' \<le> c \<and> c \<le> CHR ''Z'')
      \<or> c = CHR ''_''
      \<or> c \<in> set [CHR 0xAA, CHR 0xB2, CHR 0xB3, CHR 0xB5, CHR 0xB9, CHR 0xBA,
                   CHR 0xBC, CHR 0xBD, CHR 0xBE]
      \<or> (CHR 0xC0 \<le> c \<and> c \<le> CHR 0xD6) \<or> (CHR 0xD8 \<le> c \<and> c \<le> CHR 0xF6)
      \<or> (CHR 0xF8 \<le> c \<and> c \<le> CHR 0xFF))"

definition word_at :: "string \<Rightarrow> nat \<Rightarrow> bool" where
  "word_at t i = (i < length t \<and> is_word (t ! i))"

definition boundary :: "string \<Rightarrow> nat \<Rightarrow> bool" where
  "boundary t i = ((0 < i \<and> word_at t (i - 1)) \<noteq> word_at t i)"

definition digits_at :: "string \<Rightarrow> nat \<Rightarrow> nat \<Rightarrow> bool" where
  "digits_at t i k = (i + k \<le> length t \<and> list_all is_digit (take k (drop i t)))"

text \<open>
  One attempt of the pattern at position \<open>i\<close>: after the first \<open>\b\<close>, the greedy
  \<open>\d{3,6}\<close> takes as many digits as it can and gives them back one at a time until the
  second \<open>\b\<close> holds, so the lengths are tried from 6 down to 3. The result is the length of
  the match.
\<close>

definition match_at :: "string \<Rightarrow> nat \<Rightarrow> nat option" where
  "match_at t i =
     (if boundary t i then find (\<lambda>k. digits_at t i k \<and> boundary t (i + k)) [6, 5, 4, 3]
      else None)"

text \<open>
  \<open>findall\<close> tries the positions from left to right and resumes after each match; it
  returns the text of the group of every match.
\<close>

function findall_from :: "string \<Rightarrow> nat \<Rightarrow> string list" where
  "findall_from t i =
     (if length t < i then []
      else case match_at t i of
             None \<Rightarrow> findall_from t (i + 1)
           | Some k \<Rightarrow> take k (drop i t) # findall_from t (i + k))"
  by pat_completeness auto
termination
  by (relation "measure (\<lambda>(t, i). length t + 1 - i)")
     (auto simp: match_at_def split: if_splits)

declare findall_from.simps [simp del]

definition findall :: "string \<Rightarrow> string list" where
  "findall t = findall_from t 0"

text \<open>\<open>int(s)\<close> on a string of decimal digits.\<close>

definition digit_val :: "char \<Rightarrow> int" where
  "digit_val c = of_char c - 48"

definition int_of_digits :: "string \<Rightarrow> int" where
  "int_of_digits s = foldl (\<lambda>acc c. 10 * acc + digit_val c) 0 s"

definition users_hint :: "string \<Rightarrow> int" where
  "users_hint t = (case findall t of [] \<Rightarrow> 1000 | n # _ \<Rightarrow> int_of_digits n)"

section \<open>extract\<close>

text \<open>\<open>t = (text or "").lower()\<close>: an absent text is the empty text.\<close>

definition text_or_empty :: "string option \<Rightarrow> string" where
  "text_or_empty text = (case text of None \<Rightarrow> [] | Some s \<Rightarrow> s)"

definition lowered :: "string option \<Rightarrow> string" where
  "lowered text = str_lower (text_or_empty text)"

definition "extract" :: "string option \<Rightarrow> profile" where
  "extract text =
     (let t = lowered text
      in \<lparr> modules = sorted_list_of_set (add_core (detect_modules t)),
           external = detect_externals t,
           hosting = classify_hosting t,
           compliance = detect_compliance t,
           users = users_hint t \<rparr>)"

section \<open>build\_dot\<close>

text \<open>
  The list \<open>edges\<close> of \<open>build_dot\<close>: three fixed edges, then the two loops that append
  to it.
\<close>

definition dot_edges :: "profile \<Rightarrow> (string \<times> string) list" where
  "dot_edges analysis =
     (let edges = [];
          edges = edges @ [(''Users'', ''Fiori'')];
          edges = edges @ [(''Fiori'', ''S/4HANA'')];
          edges = edges @ [(''S/4HANA'', hosting analysis)];
          edges = fold (\<lambda>m es. if m \<notin> set [''S/4HANA'', ''Fiori''] then es @ [(m, ''S/4HANA'')]
                               else es) (modules analysis) edges;
          edges = fold (\<lambda>ext es. es @ [(ext, ''S/4HANA'')]) (external analysis) edges
      in edges)"

text \<open>The set comprehension \<open>{n for a, b in edges for n in (a, b)}\<close>.\<close>

definition dot_nodes :: "(string \<times> string) list \<Rightarrow> string set" where
  "dot_nodes edges = set (concat (map (\<lambda>(a, b). [a, b]) edges))"

definition node_line :: "string \<Rightarrow> string" where
  "node_line n = [CHR 0x22] @ n @ [CHR 0x22] @ '';''"

definition edge_line :: "string \<times> string \<Rightarrow> string" where
  "edge_line e =
     (case e of (a, b) \<Rightarrow> [CHR 0x22] @ a @ [CHR 0x22] @ '' -> '' @ [CHR 0x22] @ b @ [CHR 0x22] @ '';'')"

definition dot_lines :: "profile \<Rightarrow> string list" where
  "dot_lines analysis =
     (let edges = dot_edges analysis;
          nodes = dot_nodes edges;
          dot = [''digraph G {'', ''rankdir=LR;'', ''node [shape=box, style=rounded];''];
          dot = fold (\<lambda>n d. d @ [node_line n]) (sorted_list_of_set nodes) dot;
          dot = fold (\<lambda>e d. d @ [edge_line e]) edges dot;
          dot = dot @ [''}'']
      in dot)"

definition build_dot :: "profile \<Rightarrow> string" where
  "build_dot analysis = join [CHR 0x0A] (dot_lines analysis)"

section \<open>make\_fmea\<close>

record risk =
  Failure_Mode :: string
  Effect :: string
  Severity :: int
  Occurrence :: int
  Detection :: int
  RPN :: int
  Mitigations :: "string list"

text \<open>The inner function \<open>add\<close>, which appends one record to \<open>items\<close>.\<close>

definition add :: "string \<Rightarrow> string \<Rightarrow> int \<Rightarrow> int \<Rightarrow> int \<Rightarrow> string list \<Rightarrow> risk list \<Rightarrow> risk list" where
  "add mode eff sev occ det actions items =
     (let rpn = sev * occ * det
      in items @ [\<lparr> Failure_Mode = mode, Effect = eff, Severity = sev, Occurrence = occ,
                     Detection = det, RPN = rpn, Mitigations = actions \<rparr>])"

text \<open>The three heuristics of \<open>make_fmea\<close>.\<close>

definition many_integrations :: "profile \<Rightarrow> bool" where
  "many_integrations analysis = (2 \<le> length (external analysis))"

definition cloud :: "profile \<Rightarrow> bool" where
  "cloud analysis =
     (str_in ''Cloud'' (hosting analysis) \<or> hosting analysis \<in> set [''AWS Cloud'', ''Azure Cloud''])"

definition hybrid :: "profile \<Rightarrow> bool" where
  "hybrid analysis = (hosting analysis = ''Hybrid'')"

text \<open>The list \<open>items\<close> after the six calls of \<open>add\<close>, before it is sorted.\<close>

definition fmea_catalog :: "profile \<Rightarrow> risk list" where
  "fmea_catalog analysis =
     (let items = [];
          items = add ''Integration failure''
                    ''Orders/shipments stuck; revenue impact''
                    9 (5 + (if many_integrations analysis then 1 else 0)) 5
                    [''Use standard IDoc/OData where possible'',
                     ''Contract SLAs with external systems'',
                     ''Retry & dead-letter queues; circuit breakers'',
                     ''Observability on interfaces (alerts, traces)''] items;
          items = add ''Data migration error''
                    ''Inaccurate financials or inventory''
                    8 4 6
                    [''Reconciliation runs & parity reports'',
                     ''Master-data validation rules (MDG-style)'',
                     ''Dry runs + cutover checklists''] items;
          items = add ''Security breach''
                    ''PII loss / compliance fines''
                    10 3 4
                    [''RBAC & SoD; MFA/SSO'',
                     ''Field-level encryption & masking'',
                     ''Centralized audit logs; log retention''] items;
          items = add ''Performance degradation''
                    ''Slow UI and batch overruns''
                    7 (4 + (if users analysis > 2000 then 1 else 0)) 5
                    [''OData caching & CDS view tuning'',
                     ''Archive/cold-store aged data'',
                     ''Background jobs leveled; capacity tests''] items;
          items = add ''Availability / DR gap''
                    ''Extended outage''
                    9 (3 + (if cloud analysis \<or> hybrid analysis then 1 else 0)) 4
                    [''Automated backups; tested restore'',
                     ''Cross-region replicas; failover drills'',
                     ''RPO/RTO in runbooks''] items;
          items = add ''Master data quality issues''
                    ''Downstream errors across modules''
                    8 5 6
                    [''Data ownership & stewardship'',
                     ''Duplicate prevention, validations'',
                     ''Golden-record governance''] items
      in items)"

text \<open>
  \<open>items.sort(key=..., reverse=True)\<close>. Python's sort is stable, also with
  \<open>reverse=True\<close>: the list is reversed, sorted by ascending key with a stable sort, and
  reversed again, so that records of equal key keep their order.
\<close>

definition sort_reverse :: "('a \<Rightarrow> int) \<Rightarrow> 'a list \<Rightarrow> 'a list" where
  "sort_reverse key xs = rev (sort_key key (rev xs))"

definition make_fmea :: "profile \<Rightarrow> risk list" where
  "make_fmea analysis = sort_reverse RPN (fmea_catalog analysis)"

section \<open>mitigation\_narrative\<close>

text \<open>The \<open>if\<close>/\<open>elif\<close> chain on the failure mode of a row; no branch means no bullet.\<close>

definition bullet_for :: "string \<Rightarrow> string option" where
  "bullet_for mode =
     (if mode = ''Integration failure'' then Some
        (''- **Integration failure:** Prefer *standard SAP APIs* (OData/IDoc), stabilize with message queues '' @
         ''(retry + DLQ). Monitor flows with **open-source Prometheus/Grafana**; contract SLAs with 3rd parties.'')
      else if mode = ''Data migration error'' then Some
        (''- **Data migration error:** Use reconciliation reports and trial cutovers; apply **data quality rules** '' @
         ''and duplicate checks (MDG principles). Validate with **Great Expectations** (open-source).'')
      else if mode = ''Security breach'' then Some
        (''- **Security breach:** Enforce **RBAC/SoD** and SSO/MFA; encrypt in transit/at rest; enable field masking; '' @
         ''centralize audit logs; periodic access reviews.'')
      else if mode = ''Availability / DR gap'' then Some
        (''- **Availability/DR:** Automate backups, test restore, configure cross-region replicas and run **failover drills**; '' @
         ''document RPO/RTO and escalation runbooks.'')
      else if mode = ''Performance degradation'' then Some
        ''- **Performance:** Tune CDS views, cache OData, level background jobs; run load tests; archive historical data.''
      else if mode = ''Master data quality issues'' then Some
        (''- **Master data quality:** Define data owners/stewards; validations and duplicate prevention; '' @
         ''golden-record governance and change workflows.'')
      else None)"

definition gdpr_block :: string where
  "gdpr_block = ''- **GDPR:** Minimize PII, masking/pseudonymization, consent tracking, and retention schedules.''"

definition hipaa_block :: string where
  "hipaa_block = ''- **HIPAA:** End-to-end encryption, BAA with vendors, and strict audit logging.''"

definition default_message :: string where
  "default_message = ''- No high risks detected beyond standard good practices.''"

text \<open>The loop over \<open>fmea_items[:4]\<close>.\<close>

definition bullets_of :: "risk list \<Rightarrow> string list" where
  "bullets_of fmea_items =
     fold (\<lambda>row bullets. case bullet_for (Failure_Mode row) of
                            Some b \<Rightarrow> bullets @ [b]
                          | None \<Rightarrow> bullets)
       (take 4 fmea_items) []"

text \<open>
  The list \<open>extra\<close>. A profile always has the key \<open>compliance\<close>, so
  \<open>analysis.get("compliance", [])\<close> is that field.
\<close>

definition extra_of :: "profile \<Rightarrow> string list" where
  "extra_of analysis =
     (let extra = [];
          extra = (if ''GDPR'' \<in> set (compliance analysis) then extra @ [gdpr_block] else extra);
          extra = (if ''HIPAA'' \<in> set (compliance analysis) then extra @ [hipaa_block] else extra)
      in extra)"

text \<open>\<open>text = "\n".join(bullets + extra)\<close>, and \<open>text or <default>\<close>.\<close>

definition narrative_text :: "risk list \<Rightarrow> profile \<Rightarrow> string" where
  "narrative_text fmea_items analysis =
     join [CHR 0x0A] (bullets_of fmea_items @ extra_of analysis)"

definition mitigation_narrative :: "risk list \<Rightarrow> profile \<Rightarrow> string" where
  "mitigation_narrative fmea_items analysis =
     (let text = narrative_text fmea_items analysis
      in if text \<noteq> [] then text else default_message)"

section \<open>Notions of the specification\<close>

text \<open>
  Some keyword of the module registry occurs in the lowercased text \<open>t\<close>.
\<close>

definition module_keyword_hit :: "string \<Rightarrow> bool" where
  "module_keyword_hit t = list_ex (\<lambda>kw. str_in kw t) (concat (map snd MODULE_KEYWORDS))"

text \<open>The record of a failure mode in a risk list.\<close>

definition risk_of :: "string \<Rightarrow> risk list \<Rightarrow> risk option" where
  "risk_of mode items = find (\<lambda>r. Failure_Mode r = mode) items"

text \<open>The requirement text of the end-to-end scenario.\<close>

definition scenario_text :: string where
  "scenario_text =
     ''Implement S/4HANA finance and procurement, integrate Salesforce and 3PL, deploy on AWS, GDPR compliance, 5000 users''"

text \<open>
  Following the words of the specification, a standalone numeric substring of 3 to 6
  digits: the \<open>k\<close> characters of \<open>t\<close> from position \<open>i\<close> are digits, \<open>k\<close> is between 3
  and 6, and no word character stands next to them, before or after.
\<close>

definition delimited_digits :: "string \<Rightarrow> nat \<Rightarrow> nat \<Rightarrow> bool" where
  "delimited_digits t i k =
     (3 \<le> k \<and> k \<le> 6 \<and> i + k \<le> length t \<and> (\<forall>j<k. is_digit (t ! (i + j))) \<and>
      (i = 0 \<or> \<not> is_word (t ! (i - 1))) \<and>
      (i + k = length t \<or> \<not> is_word (t ! (i + k))))"

section \<open>Substrings and lists\<close>

lemma starts_with_iff: "starts_with kw t \<longleftrightarrow> (\<exists>ss. t = kw @ ss)"
  by (induction kw t rule: starts_with.induct) auto


section \<open>The modules of a profile\<close>

lemma fold_insert_if:
  "fold (\<lambda>(m, kws) ms. if P kws then insert m ms else ms) xs A
     = A \<union> fst ` {x \<in> set xs. P (snd x)}"
  by (induction xs arbitrary: A) (auto simp: case_prod_beta)

lemma detect_modules_eq:
  "detect_modules t = fst ` {x \<in> set MODULE_KEYWORDS. any_kw_in (snd x) t}"
  by (simp add: detect_modules_def fold_insert_if)

lemma finite_detect_modules: "finite (detect_modules t)"
  by (simp add: detect_modules_eq)

lemma finite_add_core: "finite ms \<Longrightarrow> finite (add_core ms)"
  by (simp add: add_core_def)

lemma add_core_eq: "add_core ms = ms \<union> {''S/4HANA'', ''Fiori''}"
  by (auto simp: add_core_def)

lemma modules_extract:
  "modules (extract text) = sorted_list_of_set (add_core (detect_modules (lowered text)))"
  by (simp add: extract_def Let_def)

lemma set_modules_extract:
  "set (modules (extract text)) = detect_modules (lowered text) \<union> {''S/4HANA'', ''Fiori''}"
proof -
  have "finite (add_core (detect_modules (lowered text)))"
    by (rule finite_add_core) (rule finite_detect_modules)
  then have "set (sorted_list_of_set (add_core (detect_modules (lowered text))))
               = add_core (detect_modules (lowered text))"
    by (rule set_sorted_list_of_set)
  then show ?thesis by (simp only: modules_extract add_core_eq)
qed

lemma core_sorted: "sorted_list_of_set {''S/4HANA'', ''Fiori''} = [''Fiori'', ''S/4HANA'']"
proof -
  have "sorted_list_of_set (set [''S/4HANA'', ''Fiori'']) = [''Fiori'', ''S/4HANA'']"
    by code_simp
  then show ?thesis by simp
qed

lemma no_hit_detect: "\<not> module_keyword_hit t \<Longrightarrow> detect_modules t = {}"
  by (auto simp: detect_modules_eq module_keyword_hit_def any_kw_in_def list_ex_iff)

text \<open>
  Claim C1. Whatever the text, also an absent one, the modules of the extracted profile
  contain the two core tags S/4HANA and Fiori; and when no keyword of the module registry
  occurs in the lowercased text, the modules are exactly these two tags.
\<close>

theorem extract_modules_core:
  "''S/4HANA'' \<in> set (modules (extract text)) \<and> ''Fiori'' \<in> set (modules (extract text)) \<and>
   (\<not> module_keyword_hit (lowered text) \<longrightarrow> modules (extract text) = [''Fiori'', ''S/4HANA''])"
proof (intro conjI impI)
  show "''S/4HANA'' \<in> set (modules (extract text))"
    by (simp add: set_modules_extract)
  show "''Fiori'' \<in> set (modules (extract text))"
    by (simp add: set_modules_extract)
next
  assume "\<not> module_keyword_hit (lowered text)"
  then have "detect_modules (lowered text) = {}" by (rule no_hit_detect)
  then show "modules (extract text) = [''Fiori'', ''S/4HANA'']"
    by (simp add: modules_extract add_core_eq core_sorted)
qed

theorem extract_modules_core_witness:
  "\<not> module_keyword_hit (lowered (Some ''Hello World'')) \<and>
   ''S/4HANA'' \<in> set (modules (extract (Some ''Hello World''))) \<and>
   ''Fiori'' \<in> set (modules (extract (Some ''Hello World''))) \<and>
   modules (extract (Some ''Hello World'')) = [''Fiori'', ''S/4HANA'']"
proof -
  have h: "\<not> module_keyword_hit (lowered (Some ''Hello World''))" by code_simp
  from h extract_modules_core [of "Some ''Hello World''"] show ?thesis by blast
qed

text \<open>
  Claim C10. Whatever the text, the modules of the extracted profile are listed without
  duplicates and in ascending lexicographic order of the strings.
\<close>

theorem extract_modules_sorted_distinct:
  "sorted (modules (extract text)) \<and> distinct (modules (extract text))"
  by (simp add: modules_extract)

section \<open>Hosting\<close>

lemma hosting_extract: "hosting (extract text) = classify_hosting (lowered text)"
  by (simp add: extract_def Let_def)

text \<open>
  Claim C2, amended. The hosting value is computed by a chain of overrides from the default
  \<open>S/4HANA Cloud\<close>: the tests for on-prem, azure, aws and hybrid are made in this order
  and each positive test overwrites the value, so the last positive test decides. A text
  with an on-prem keyword and the hybrid keyword gives \<open>Hybrid\<close>; a text with azure and
  aws, and without hybrid, gives \<open>AWS Cloud\<close>; a text with none of the keywords gives the
  default.
\<close>

theorem hosting_override_chain:
  "hosting (extract text) =
     (if str_in ''hybrid'' (lowered text) then ''Hybrid''
      else if str_in ''aws'' (lowered text) then ''AWS Cloud''
      else if str_in ''azure'' (lowered text) then ''Azure Cloud''
      else if str_in ''on-prem'' (lowered text) \<or> str_in ''on prem'' (lowered text) then ''On-Prem''
      else ''S/4HANA Cloud'') \<and>
   ((str_in ''on-prem'' (lowered text) \<or> str_in ''on prem'' (lowered text)) \<and>
      str_in ''hybrid'' (lowered text) \<longrightarrow> hosting (extract text) = ''Hybrid'') \<and>
   (str_in ''azure'' (lowered text) \<and> str_in ''aws'' (lowered text) \<and>
      \<not> str_in ''hybrid'' (lowered text) \<longrightarrow> hosting (extract text) = ''AWS Cloud'') \<and>
   (\<not> str_in ''on-prem'' (lowered text) \<and> \<not> str_in ''on prem'' (lowered text) \<and>
      \<not> str_in ''azure'' (lowered text) \<and> \<not> str_in ''aws'' (lowered text) \<and>
      \<not> str_in ''hybrid'' (lowered text) \<longrightarrow> hosting (extract text) = ''S/4HANA Cloud'')"
  by (simp add: hosting_extract classify_hosting_def Let_def)

theorem hosting_override_chain_witness:
  "(str_in ''on-prem'' (lowered (Some ''On-Prem core, hybrid edge'')) \<and>
    str_in ''hybrid'' (lowered (Some ''On-Prem core, hybrid edge'')) \<and>
    hosting (extract (Some ''On-Prem core, hybrid edge'')) = ''Hybrid'') \<and>
   (str_in ''azure'' (lowered (Some ''Azure and AWS'')) \<and>
    str_in ''aws'' (lowered (Some ''Azure and AWS'')) \<and>
    \<not> str_in ''hybrid'' (lowered (Some ''Azure and AWS'')) \<and>
    hosting (extract (Some ''Azure and AWS'')) = ''AWS Cloud'') \<and>
   (\<not> str_in ''on-prem'' (lowered None) \<and> \<not> str_in ''on prem'' (lowered None) \<and>
    \<not> str_in ''azure'' (lowered None) \<and> \<not> str_in ''aws'' (lowered None) \<and>
    \<not> str_in ''hybrid'' (lowered None) \<and> hosting (extract None) = ''S/4HANA Cloud'')"
proof -
  have a: "str_in ''on-prem'' (lowered (Some ''On-Prem core, hybrid edge'')) \<and>
           str_in ''hybrid'' (lowered (Some ''On-Prem core, hybrid edge''))"
    by code_simp
  have b: "str_in ''azure'' (lowered (Some ''Azure and AWS'')) \<and>
           str_in ''aws'' (lowered (Some ''Azure and AWS'')) \<and>
           \<not> str_in ''hybrid'' (lowered (Some ''Azure and AWS''))"
    by code_simp
  have c: "\<not> str_in ''on-prem'' (lowered None) \<and> \<not> str_in ''on prem'' (lowered None) \<and>
           \<not> str_in ''azure'' (lowered None) \<and> \<not> str_in ''aws'' (lowered None) \<and>
           \<not> str_in ''hybrid'' (lowered None)"
    by code_simp
  from a b c
    hosting_override_chain [of "Some ''On-Prem core, hybrid edge''"]
    hosting_override_chain [of "Some ''Azure and AWS''"]
    hosting_override_chain [of None]
  show ?thesis by blast
qed

text \<open>
  The claim as it is written fails: a text with azure, aws and hybrid is classified as
  \<open>Hybrid\<close>, not as \<open>AWS Cloud\<close>.
\<close>

theorem hosting_azure_aws_counterexample:
  "str_in ''azure'' (lowered (Some ''Azure, AWS or hybrid'')) \<and>
   str_in ''aws'' (lowered (Some ''Azure, AWS or hybrid'')) \<and>
   hosting (extract (Some ''Azure, AWS or hybrid'')) \<noteq> ''AWS Cloud''"
  by code_simp

section \<open>The risk register\<close>

lemma mset_sort_reverse: "mset (sort_reverse key xs) = mset xs"
  by (simp add: sort_reverse_def)

lemma length_sort_reverse: "length (sort_reverse key xs) = length xs"
  by (simp add: sort_reverse_def)

lemma set_sort_reverse: "set (sort_reverse key xs) = set xs"
  by (simp add: sort_reverse_def)

lemma sort_reverse_descending: "sorted_wrt (\<lambda>a b. key a \<ge> key b) (sort_reverse key xs)"
proof -
  have "sorted (map key (sort_key key (rev xs)))" by (rule sorted_sort_key)
  then have "sorted_wrt (\<lambda>a b. key a \<le> key b) (sort_key key (rev xs))"
    by (simp add: sorted_map)
  then show ?thesis by (simp add: sort_reverse_def sorted_wrt_rev)
qed

lemma sort_reverse_stable:
  "filter (\<lambda>y. key y = k) (sort_reverse key xs) = filter (\<lambda>y. key y = k) xs"
proof -
  have "filter (\<lambda>y. key y = k) (sort_key key (rev xs)) = filter (\<lambda>y. key y = k) (rev xs)"
    by (rule sort_key_stable)
  then show ?thesis by (simp add: sort_reverse_def rev_filter [symmetric])
qed

lemma fmea_catalog_eq:
  "fmea_catalog p =
    [\<lparr>Failure_Mode = ''Integration failure'', Effect = ''Orders/shipments stuck; revenue impact'',
      Severity = 9, Occurrence = 5 + (if many_integrations p then 1 else 0), Detection = 5,
      RPN = 9 * (5 + (if many_integrations p then 1 else 0)) * 5,
      Mitigations = [''Use standard IDoc/OData where possible'',
                     ''Contract SLAs with external systems'',
                     ''Retry & dead-letter queues; circuit breakers'',
                     ''Observability on interfaces (alerts, traces)'']\<rparr>,
     \<lparr>Failure_Mode = ''Data migration error'', Effect = ''Inaccurate financials or inventory'',
      Severity = 8, Occurrence = 4, Detection = 6, RPN = 8 * 4 * 6,
      Mitigations = [''Reconciliation runs & parity reports'',
                     ''Master-data validation rules (MDG-style)'',
                     ''Dry runs + cutover checklists'']\<rparr>,
     \<lparr>Failure_Mode = ''Security breach'', Effect = ''PII loss / compliance fines'',
      Severity = 10, Occurrence = 3, Detection = 4, RPN = 10 * 3 * 4,
      Mitigations = [''RBAC & SoD; MFA/SSO'',
                     ''Field-level encryption & masking'',
                     ''Centralized audit logs; log retention'']\<rparr>,
     \<lparr>Failure_Mode = ''Performance degradation'', Effect = ''Slow UI and batch overruns'',
      Severity = 7, Occurrence = 4 + (if users p > 2000 then 1 else 0), Detection = 5,
      RPN = 7 * (4 + (if users p > 2000 then 1 else 0)) * 5,
      Mitigations = [''OData caching & CDS view tuning'',
                     ''Archive/cold-store aged data'',
                     ''Background jobs leveled; capacity tests'']\<rparr>,
     \<lparr>Failure_Mode = ''Availability / DR gap'', Effect = ''Extended outage'',
      Severity = 9, Occurrence = 3 + (if cloud p \<or> hybrid p then 1 else 0), Detection = 4,
      RPN = 9 * (3 + (if cloud p \<or> hybrid p then 1 else 0)) * 4,
      Mitigations = [''Automated backups; tested restore'',
                     ''Cross-region replicas; failover drills'',
                     ''RPO/RTO in runbooks'']\<rparr>,
     \<lparr>Failure_Mode = ''Master data quality issues'', Effect = ''Downstream errors across modules'',
      Severity = 8, Occurrence = 5, Detection = 6, RPN = 8 * 5 * 6,
      Mitigations = [''Data ownership & stewardship'',
                     ''Duplicate prevention, validations'',
                     ''Golden-record governance'']\<rparr>]"
  by (simp add: fmea_catalog_def add_def Let_def)

lemma catalog_modes:
  "map Failure_Mode (fmea_catalog p) =
     [''Integration failure'', ''Data migration error'', ''Security breach'',
      ''Performance degradation'', ''Availability / DR gap'', ''Master data quality issues'']"
  by (simp add: fmea_catalog_eq)

lemma catalog_rpn: "list_all (\<lambda>r. RPN r = Severity r * Occurrence r * Detection r) (fmea_catalog p)"
  by (simp add: fmea_catalog_eq)

lemma list_all_sort_reverse: "list_all P (sort_reverse key xs) = list_all P xs"
  by (simp add: list_all_iff set_sort_reverse)

text \<open>
  Claim C4. For every profile, \<open>make_fmea\<close> returns exactly 6 risk records; the RPN of
  each is the product of its severity, occurrence and detection; the list is in descending
  order of RPN; it holds the records of the catalog, and the records with the same RPN are in
  the order in which the catalog declares them.
\<close>

theorem make_fmea_sorted_stable:
  "length (make_fmea p) = 6 \<and>
   list_all (\<lambda>r. RPN r = Severity r * Occurrence r * Detection r) (make_fmea p) \<and>
   sorted_wrt (\<lambda>a b. RPN a \<ge> RPN b) (make_fmea p) \<and>
   mset (make_fmea p) = mset (fmea_catalog p) \<and>
   filter (\<lambda>r. RPN r = k) (make_fmea p) = filter (\<lambda>r. RPN r = k) (fmea_catalog p)"
  unfolding make_fmea_def
proof (intro conjI)
  show "length (sort_reverse RPN (fmea_catalog p)) = 6"
    by (simp add: length_sort_reverse fmea_catalog_eq)
  show "list_all (\<lambda>r. RPN r = Severity r * Occurrence r * Detection r)
          (sort_reverse RPN (fmea_catalog p))"
    by (simp only: list_all_sort_reverse catalog_rpn)
  show "sorted_wrt (\<lambda>a b. RPN a \<ge> RPN b) (sort_reverse RPN (fmea_catalog p))"
    by (rule sort_reverse_descending)
  show "mset (sort_reverse RPN (fmea_catalog p)) = mset (fmea_catalog p)"
    by (rule mset_sort_reverse)
  show "filter (\<lambda>r. RPN r = k) (sort_reverse RPN (fmea_catalog p))
          = filter (\<lambda>r. RPN r = k) (fmea_catalog p)"
    by (rule sort_reverse_stable)
qed

section \<open>The occurrence adjustments\<close>

lemma find_filter_conv: "find P xs = (case filter P xs of [] \<Rightarrow> None | x # _ \<Rightarrow> Some x)"
  by (induction xs) auto

lemma filter_key_distinct:
  "distinct (map f xs) \<Longrightarrow> filter (\<lambda>x. f x = m) xs = [] \<or> (\<exists>r. filter (\<lambda>x. f x = m) xs = [r])"
proof (induction xs)
  case Nil
  then show ?case by simp
next
  case (Cons a xs)
  show ?case
  proof (cases "f a = m")
    case True
    from Cons.prems have "f a \<notin> f ` set xs" by simp
    with True have "\<forall>x\<in>set xs. f x \<noteq> m" by blast
    then have "filter (\<lambda>x. f x = m) xs = []" by (simp add: filter_empty_conv)
    with True show ?thesis by simp
  next
    case False
    with Cons show ?thesis by simp
  qed
qed

lemma find_permuted:
  assumes "distinct (map f xs)" and "mset ys = mset xs"
  shows "find (\<lambda>x. f x = m) ys = find (\<lambda>x. f x = m) xs"
proof -
  have eq: "mset (filter (\<lambda>x. f x = m) ys) = mset (filter (\<lambda>x. f x = m) xs)"
    using assms(2) by simp
  from filter_key_distinct [OF assms(1), of m]
  have "filter (\<lambda>x. f x = m) ys = filter (\<lambda>x. f x = m) xs"
  proof
    assume e: "filter (\<lambda>x. f x = m) xs = []"
    with eq show ?thesis by simp
  next
    assume "\<exists>r. filter (\<lambda>x. f x = m) xs = [r]"
    then obtain r where r: "filter (\<lambda>x. f x = m) xs = [r]" by blast
    with eq have "mset (filter (\<lambda>x. f x = m) ys) = {#r#}" by simp
    then have "filter (\<lambda>x. f x = m) ys = [r]" by (simp only: mset_single_iff)
    with r show ?thesis by simp
  qed
  then show ?thesis by (simp add: find_filter_conv)
qed

lemma risk_of_make_fmea: "risk_of m (make_fmea p) = risk_of m (fmea_catalog p)"
  unfolding risk_of_def make_fmea_def
  by (rule find_permuted) (simp_all add: catalog_modes mset_sort_reverse)

lemma risk_of_integration:
  "risk_of ''Integration failure'' (make_fmea p) = Some (fmea_catalog p ! 0)"
  unfolding risk_of_make_fmea by (simp add: risk_of_def fmea_catalog_eq)

lemma risk_of_performance:
  "risk_of ''Performance degradation'' (make_fmea p) = Some (fmea_catalog p ! 3)"
  unfolding risk_of_make_fmea by (simp add: risk_of_def fmea_catalog_eq)

lemma risk_of_availability:
  "risk_of ''Availability / DR gap'' (make_fmea p) = Some (fmea_catalog p ! 4)"
  unfolding risk_of_make_fmea by (simp add: risk_of_def fmea_catalog_eq)

lemma cloud_or_hybrid_iff:
  "(cloud p \<or> hybrid p) = (str_in ''Cloud'' (hosting p) \<or> hosting p = ''Hybrid'')"
  by (auto simp: cloud_def hybrid_def)

lemma cloud_or_hybrid_extract:
  "(cloud (extract text) \<or> hybrid (extract text)) = (hosting (extract text) \<noteq> ''On-Prem'')"
  by (simp add: cloud_def hybrid_def hosting_extract classify_hosting_def Let_def)

text \<open>
  Claim C5. In the list that \<open>make_fmea\<close> returns, the occurrence of the
  integration failure is its base 5 plus 1 exactly when the profile has at least 2
  external systems; that of the performance degradation is its base 4 plus 1 exactly when
  the users exceed 2000; that of the availability gap is its base 3 plus 1 exactly when the
  hosting is a cloud or the hybrid variant (\<open>cloud\<close> or \<open>hybrid\<close> of the source). So of
  two profiles that differ only in the external systems, the one with at least 2 has a
  strictly greater occurrence and RPN of the integration failure than the one with fewer.
  For a profile that \<open>extract\<close> returns, the hosting is a cloud or the hybrid variant
  exactly when it is not \<open>On-Prem\<close>.
\<close>

theorem occurrence_adjustments:
  "(\<exists>r. risk_of ''Integration failure'' (make_fmea p) = Some r \<and>
        Occurrence r = (if 2 \<le> length (external p) then 5 + 1 else 5) \<and>
        (Occurrence r = 5 + 1) = (2 \<le> length (external p))) \<and>
   (\<exists>r. risk_of ''Performance degradation'' (make_fmea p) = Some r \<and>
        Occurrence r = (if users p > 2000 then 4 + 1 else 4) \<and>
        (Occurrence r = 4 + 1) = (users p > 2000)) \<and>
   (\<exists>r. risk_of ''Availability / DR gap'' (make_fmea p) = Some r \<and>
        Occurrence r = (if cloud p \<or> hybrid p then 3 + 1 else 3) \<and>
        (Occurrence r = 3 + 1) = (cloud p \<or> hybrid p)) \<and>
   (2 \<le> length es \<and> length es' < 2 \<longrightarrow>
      (\<exists>r r'. risk_of ''Integration failure'' (make_fmea (p\<lparr>external := es\<rparr>)) = Some r \<and>
              risk_of ''Integration failure'' (make_fmea (p\<lparr>external := es'\<rparr>)) = Some r' \<and>
              Occurrence r' < Occurrence r \<and> RPN r' < RPN r)) \<and>
   (cloud (extract text) \<or> hybrid (extract text)) = (hosting (extract text) \<noteq> ''On-Prem'')"
proof (intro conjI impI)
  show "(cloud (extract text) \<or> hybrid (extract text)) = (hosting (extract text) \<noteq> ''On-Prem'')"
    by (rule cloud_or_hybrid_extract)
  show "\<exists>r. risk_of ''Integration failure'' (make_fmea p) = Some r \<and>
        Occurrence r = (if 2 \<le> length (external p) then 5 + 1 else 5) \<and>
        (Occurrence r = 5 + 1) = (2 \<le> length (external p))"
    by (simp add: risk_of_integration fmea_catalog_eq many_integrations_def)
  show "\<exists>r. risk_of ''Performance degradation'' (make_fmea p) = Some r \<and>
        Occurrence r = (if users p > 2000 then 4 + 1 else 4) \<and>
        (Occurrence r = 4 + 1) = (users p > 2000)"
    by (simp add: risk_of_performance fmea_catalog_eq)
  show "\<exists>r. risk_of ''Availability / DR gap'' (make_fmea p) = Some r \<and>
        Occurrence r = (if cloud p \<or> hybrid p then 3 + 1 else 3) \<and>
        (Occurrence r = 3 + 1) = (cloud p \<or> hybrid p)"
    by (simp add: risk_of_availability fmea_catalog_eq)
next
  assume "2 \<le> length es \<and> length es' < 2"
  then show "\<exists>r r'. risk_of ''Integration failure'' (make_fmea (p\<lparr>external := es\<rparr>)) = Some r \<and>
              risk_of ''Integration failure'' (make_fmea (p\<lparr>external := es'\<rparr>)) = Some r' \<and>
              Occurrence r' < Occurrence r \<and> RPN r' < RPN r"
    by (simp add: risk_of_integration fmea_catalog_eq many_integrations_def)
qed

theorem occurrence_adjustments_witness:
  "2 \<le> length [''Salesforce CRM'', ''POS''] \<and> length ([] :: string list) < 2 \<and>
   (\<exists>r r'. risk_of ''Integration failure''
              (make_fmea ((extract None)\<lparr>external := [''Salesforce CRM'', ''POS'']\<rparr>)) = Some r \<and>
           risk_of ''Integration failure'' (make_fmea ((extract None)\<lparr>external := []\<rparr>)) = Some r' \<and>
           Occurrence r' < Occurrence r \<and> RPN r' < RPN r)"
  using occurrence_adjustments [of "extract None" "[''Salesforce CRM'', ''POS'']" "[]"]
  by simp

section \<open>The mitigation narrative\<close>

lemma fold_append_some:
  "fold (\<lambda>row bs. case f row of Some b \<Rightarrow> bs @ [b] | None \<Rightarrow> bs) xs acc
     = acc @ List.map_filter f xs"
  by (induction xs arbitrary: acc) (auto simp: List.map_filter_simps split: option.splits)

lemma bullets_of_eq:
  "bullets_of items = List.map_filter (\<lambda>r. bullet_for (Failure_Mode r)) (take 4 items)"
  by (simp add: bullets_of_def fold_append_some)



lemma join_Cons: "join sep (x # xs) = x @ (if xs = [] then [] else sep @ join sep xs)"
  by (cases xs) simp_all







section \<open>The fallback message\<close>

lemma bullet_for_catalog:
  "r \<in> set (fmea_catalog p) \<Longrightarrow> \<exists>b. bullet_for (Failure_Mode r) = Some b \<and> starts_with ''- **'' b"
  by (auto simp: fmea_catalog_eq bullet_for_def)

lemma make_fmea_nonempty: "\<exists>r rs. make_fmea p = r # rs \<and> r \<in> set (fmea_catalog p)"
proof -
  have "length (make_fmea p) = 6" by (simp add: make_fmea_def length_sort_reverse fmea_catalog_eq)
  then obtain r rs where e: "make_fmea p = r # rs" by (cases "make_fmea p") auto
  then have "r \<in> set (make_fmea p)" by simp
  then have "r \<in> set (fmea_catalog p)" by (simp add: make_fmea_def set_sort_reverse)
  with e show ?thesis by blast
qed

lemma bullets_make_fmea: "\<exists>b bs. bullets_of (make_fmea p) = b # bs \<and> starts_with ''- **'' b"
proof -
  obtain r rs where e: "make_fmea p = r # rs" and r: "r \<in> set (fmea_catalog p)"
    using make_fmea_nonempty by blast
  obtain b where b: "bullet_for (Failure_Mode r) = Some b" "starts_with ''- **'' b"
    using bullet_for_catalog [OF r] by blast
  have "take 4 (r # rs) = r # take 3 rs" by (simp add: take_Cons')
  then show ?thesis using b by (simp add: bullets_of_eq e List.map_filter_simps)
qed

lemma length_bullets_make_fmea: "length (bullets_of (make_fmea p)) = 4"
proof -
  have "\<forall>r \<in> set (take 4 (make_fmea p)). bullet_for (Failure_Mode r) \<noteq> None"
  proof
    fix r assume "r \<in> set (take 4 (make_fmea p))"
    then have "r \<in> set (make_fmea p)" by (rule in_set_takeD)
    then have "r \<in> set (fmea_catalog p)" by (simp add: make_fmea_def set_sort_reverse)
    then show "bullet_for (Failure_Mode r) \<noteq> None" using bullet_for_catalog by fastforce
  qed
  then have "filter (\<lambda>r. bullet_for (Failure_Mode r) \<noteq> None) (take 4 (make_fmea p)) = take 4 (make_fmea p)"
    by (simp add: filter_id_conv)
  then have "length (bullets_of (make_fmea p)) = length (take 4 (make_fmea p))"
    by (simp add: bullets_of_eq List.map_filter_def)
  then show ?thesis by (simp add: make_fmea_def length_sort_reverse fmea_catalog_eq)
qed

lemma narrative_make_fmea:
  "narrative_text (make_fmea p) q \<noteq> [] \<and> starts_with ''- **'' (narrative_text (make_fmea p) q)"
proof -
  obtain b bs where e: "bullets_of (make_fmea p) = b # bs" and s: "starts_with ''- **'' b"
    using bullets_make_fmea by blast
  from s obtain ss where "b = ''- **'' @ ss" unfolding starts_with_iff by blast
  then have "narrative_text (make_fmea p) q = ''- **'' @ ss @ (if bs @ extra_of q = [] then [] else [CHR 0x0A] @ join [CHR 0x0A] (bs @ extra_of q))"
    by (simp add: narrative_text_def e join_Cons)
  then show ?thesis unfolding starts_with_iff by auto
qed

text \<open>
  Claim C9. For every profile that \<open>extract\<close> returns, the first 4 records of the risk
  list of \<open>make_fmea\<close> all have a bullet, so that the joined text is not empty: the
  narrative is this text and never the fallback message.
\<close>

theorem narrative_fallback_unreachable:
  "length (bullets_of (make_fmea (extract text))) = 4 \<and>
   narrative_text (make_fmea (extract text)) (extract text) \<noteq> [] \<and>
   mitigation_narrative (make_fmea (extract text)) (extract text)
     = narrative_text (make_fmea (extract text)) (extract text) \<and>
   mitigation_narrative (make_fmea (extract text)) (extract text) \<noteq> default_message"
proof -
  let ?p = "extract text"
  have n: "narrative_text (make_fmea ?p) ?p \<noteq> []"
    and s: "starts_with ''- **'' (narrative_text (make_fmea ?p) ?p)"
    using narrative_make_fmea by blast+
  have m: "mitigation_narrative (make_fmea ?p) ?p = narrative_text (make_fmea ?p) ?p"
    using n by (simp add: mitigation_narrative_def Let_def)
  have "\<not> starts_with ''- **'' default_message" by (simp add: default_message_def)
  with s have "narrative_text (make_fmea ?p) ?p \<noteq> default_message" by auto
  with n m length_bullets_make_fmea show ?thesis by simp
qed

section \<open>The graph\<close>

lemma fold_append_if:
  "fold (\<lambda>x acc. if P x then acc @ [f x] else acc) xs acc = acc @ map f (filter P xs)"
  by (induction xs arbitrary: acc) auto

lemma fold_append_map: "fold (\<lambda>x acc. acc @ [f x]) xs acc = acc @ map f xs"
  by (induction xs arbitrary: acc) auto

lemma dot_edges_eq:
  "dot_edges p =
     [(''Users'', ''Fiori''), (''Fiori'', ''S/4HANA''), (''S/4HANA'', hosting p)] @
     map (\<lambda>m. (m, ''S/4HANA'')) (filter (\<lambda>m. m \<noteq> ''S/4HANA'' \<and> m \<noteq> ''Fiori'') (modules p)) @
     map (\<lambda>ext. (ext, ''S/4HANA'')) (external p)"
  by (simp add: dot_edges_def Let_def fold_append_if fold_append_map)

lemma dot_nodes_eq: "dot_nodes edges = fst ` set edges \<union> snd ` set edges"
  by (auto simp: dot_nodes_def) force+

lemma finite_dot_nodes: "finite (dot_nodes edges)"
  unfolding dot_nodes_def by (rule finite_set)

text \<open>
  Claim C7. For every profile, the edges of \<open>build_dot\<close> are the three fixed edges from
  Users to Fiori, from Fiori to S/4HANA and from S/4HANA to the hosting value, then one edge
  to S/4HANA from every module other than S/4HANA and Fiori, then one edge to S/4HANA from
  every external system, in this order; the nodes are the end points of the edges, each
  once, in ascending lexicographic order; the output lists the nodes and then the edges.
\<close>

theorem build_dot_graph:
  "dot_edges p =
     [(''Users'', ''Fiori''), (''Fiori'', ''S/4HANA''), (''S/4HANA'', hosting p)] @
     map (\<lambda>m. (m, ''S/4HANA'')) (filter (\<lambda>m. m \<noteq> ''S/4HANA'' \<and> m \<noteq> ''Fiori'') (modules p)) @
     map (\<lambda>ext. (ext, ''S/4HANA'')) (external p) \<and>
   dot_lines p =
     [''digraph G {'', ''rankdir=LR;'', ''node [shape=box, style=rounded];''] @
     map node_line (sorted_list_of_set (dot_nodes (dot_edges p))) @
     map edge_line (dot_edges p) @ [''}''] \<and>
   set (sorted_list_of_set (dot_nodes (dot_edges p)))
     = fst ` set (dot_edges p) \<union> snd ` set (dot_edges p) \<and>
   distinct (sorted_list_of_set (dot_nodes (dot_edges p))) \<and>
   sorted (sorted_list_of_set (dot_nodes (dot_edges p))) \<and>
   build_dot p = join [CHR 0x0A] (dot_lines p)"
proof (intro conjI)
  show "dot_edges p =
     [(''Users'', ''Fiori''), (''Fiori'', ''S/4HANA''), (''S/4HANA'', hosting p)] @
     map (\<lambda>m. (m, ''S/4HANA'')) (filter (\<lambda>m. m \<noteq> ''S/4HANA'' \<and> m \<noteq> ''Fiori'') (modules p)) @
     map (\<lambda>ext. (ext, ''S/4HANA'')) (external p)"
    by (rule dot_edges_eq)
  show "dot_lines p =
     [''digraph G {'', ''rankdir=LR;'', ''node [shape=box, style=rounded];''] @
     map node_line (sorted_list_of_set (dot_nodes (dot_edges p))) @
     map edge_line (dot_edges p) @ [''}'']"
    by (simp add: dot_lines_def Let_def fold_append_map)
  have "set (sorted_list_of_set (dot_nodes (dot_edges p))) = dot_nodes (dot_edges p)"
    using finite_dot_nodes by (rule set_sorted_list_of_set)
  then show "set (sorted_list_of_set (dot_nodes (dot_edges p)))
     = fst ` set (dot_edges p) \<union> snd ` set (dot_edges p)"
    by (simp only: dot_nodes_eq)
  show "distinct (sorted_list_of_set (dot_nodes (dot_edges p)))" by simp
  show "sorted (sorted_list_of_set (dot_nodes (dot_edges p)))" by simp
  show "build_dot p = join [CHR 0x0A] (dot_lines p)" by (simp add: build_dot_def)
qed

section \<open>The end-to-end scenario\<close>

lemma scenario_profile:
  "extract (Some scenario_text) =
     \<lparr> modules = [''FI'', ''Fiori'', ''MM'', ''S/4HANA'', ''SD''],
       external = [''Salesforce CRM'', ''3PL / Logistics''],
       hosting = ''AWS Cloud'', compliance = [''GDPR''], users = 5000 \<rparr>"
  by code_simp

lemma scenario_modes:
  "map Failure_Mode (make_fmea (extract (Some scenario_text))) =
     [''Integration failure'', ''Master data quality issues'', ''Data migration error'',
      ''Performance degradation'', ''Availability / DR gap'', ''Security breach'']"
  unfolding scenario_profile by code_simp




section \<open>The user-scale hint of a profile\<close>

lemma is_digit_nat: "is_digit c \<longleftrightarrow> 48 \<le> (of_char c :: nat) \<and> (of_char c :: nat) \<le> 57"
  by (simp add: is_digit_def less_eq_char_def)

lemma is_digit_is_word: "is_digit c \<Longrightarrow> is_word c"
  by (simp add: is_word_def)

lemma digit_val_range: "is_digit c \<Longrightarrow> 0 \<le> digit_val c \<and> digit_val c \<le> 9"
proof -
  assume "is_digit c"
  then have "48 \<le> (of_char c :: nat) \<and> (of_char c :: nat) \<le> 57" by (simp add: is_digit_nat)
  moreover have "(of_char c :: int) = int (of_char c)" by (rule of_nat_of_char [symmetric])
  ultimately show ?thesis unfolding digit_val_def by linarith
qed

lemma int_of_digits_snoc: "int_of_digits (s @ [c]) = 10 * int_of_digits s + digit_val c"
  by (simp add: int_of_digits_def)

lemma int_of_digits_range:
  "list_all is_digit s \<Longrightarrow> 0 \<le> int_of_digits s \<and> int_of_digits s < 10 ^ length s"
proof (induction s rule: rev_induct)
  case Nil
  then show ?case by (simp add: int_of_digits_def)
next
  case (snoc c s)
  then have "is_digit c" and "list_all is_digit s" by simp_all
  with snoc.IH digit_val_range [of c]
  have "0 \<le> int_of_digits s" "int_of_digits s + 1 \<le> 10 ^ length s"
    "0 \<le> digit_val c" "digit_val c \<le> 9" by simp_all
  then show ?case by (simp add: int_of_digits_snoc)
qed

lemma digits_at_iff: "digits_at t i k \<longleftrightarrow> i + k \<le> length t \<and> (\<forall>j<k. is_digit (t ! (i + j)))"
  by (auto simp: digits_at_def list_all_length)

lemma boundary_before_word:
  "word_at t i \<Longrightarrow> boundary t i \<longleftrightarrow> (i = 0 \<or> \<not> is_word (t ! (i - 1)))"
  by (auto simp: boundary_def word_at_def)

lemma boundary_after_word:
  "0 < n \<Longrightarrow> word_at t (n - 1) \<Longrightarrow> n \<le> length t \<Longrightarrow>
   boundary t n \<longleftrightarrow> (n = length t \<or> \<not> is_word (t ! n))"
  by (auto simp: boundary_def word_at_def)

lemma delimited_digits_iff:
  "delimited_digits t i k \<longleftrightarrow>
     3 \<le> k \<and> k \<le> 6 \<and> boundary t i \<and> digits_at t i k \<and> boundary t (i + k)"
proof (cases "3 \<le> k \<and> i + k \<le> length t \<and> (\<forall>j<k. is_digit (t ! (i + j)))")
  case True
  then have k: "3 \<le> k" and len: "i + k \<le> length t" and d: "\<forall>j<k. is_digit (t ! (i + j))"
    by blast+
  from k d have "is_digit (t ! (i + 0))" by (metis less_le_trans zero_less_numeral)
  with k len have first: "word_at t i" by (simp add: word_at_def is_digit_is_word)
  from k d have "is_digit (t ! (i + (k - 1)))" by (metis diff_less less_le_trans zero_less_numeral zero_less_one)
  with k len have last: "word_at t (i + k - 1)" by (simp add: word_at_def is_digit_is_word)
  have pos: "0 < i + k" using k by simp
  show ?thesis
    using True boundary_before_word [OF first] boundary_after_word [OF pos last len]
    by (simp add: delimited_digits_def digits_at_iff)
next
  case False
  then show ?thesis by (auto simp: delimited_digits_def digits_at_iff)
qed

lemma delimited_digits_unique:
  assumes "delimited_digits t i k" and "delimited_digits t i k'"
  shows "k = k'"
proof -
  have less: "\<not> a < b" if a: "delimited_digits t i a" and b: "delimited_digits t i b" for a b
  proof
    assume "a < b"
    with b have "is_digit (t ! (i + a))" and "i + a < length t"
      by (auto simp: delimited_digits_def)
    with a show False by (auto simp: delimited_digits_def is_digit_is_word)
  qed
  from less [OF assms] less [OF assms(2) assms(1)] show ?thesis by simp
qed

lemma match_at_iff: "match_at t i = Some k \<longleftrightarrow> delimited_digits t i k"
proof
  assume "match_at t i = Some k"
  then show "delimited_digits t i k"
    by (auto simp: match_at_def delimited_digits_iff split: if_splits)
next
  assume d: "delimited_digits t i k"
  have u: "k' = k" if "3 \<le> k'" "k' \<le> 6" "digits_at t i k' \<and> boundary t (i + k')" for k'
  proof -
    from d have "boundary t i" by (simp add: delimited_digits_iff)
    with that have "delimited_digits t i k'" by (simp add: delimited_digits_iff)
    then show ?thesis using d by (rule delimited_digits_unique)
  qed
  from d have k: "k = 3 \<or> k = 4 \<or> k = 5 \<or> k = 6" and b: "boundary t i"
    and q: "digits_at t i k \<and> boundary t (i + k)"
    by (auto simp: delimited_digits_iff)
  from k show "match_at t i = Some k"
  proof (elim disjE)
    assume "k = 3" with b q u [of 6] u [of 5] u [of 4] show ?thesis by (auto simp: match_at_def)
  next
    assume "k = 4" with b q u [of 6] u [of 5] show ?thesis by (auto simp: match_at_def)
  next
    assume "k = 5" with b q u [of 6] show ?thesis by (auto simp: match_at_def)
  next
    assume "k = 6" with b q show ?thesis by (auto simp: match_at_def)
  qed
qed

lemma match_at_None_iff: "match_at t i = None \<longleftrightarrow> (\<forall>k. \<not> delimited_digits t i k)"
  by (metis match_at_iff not_Some_eq)

lemma findall_from_cases:
  "(findall_from t i = [] \<and> (\<forall>j. i \<le> j \<and> j \<le> length t \<longrightarrow> match_at t j = None)) \<or>
   (\<exists>j k xs. i \<le> j \<and> match_at t j = Some k \<and>
              (\<forall>j'. i \<le> j' \<and> j' < j \<longrightarrow> match_at t j' = None) \<and>
              findall_from t i = take k (drop j t) # xs)"
proof (induction t i rule: findall_from.induct)
  case (1 t i)
  show ?case
  proof (cases "length t < i")
    case True
    then have "findall_from t i = []" by (simp add: findall_from.simps)
    moreover from True have "\<forall>j. i \<le> j \<and> j \<le> length t \<longrightarrow> match_at t j = None" by auto
    ultimately show ?thesis by blast
  next
    case False
    show ?thesis
    proof (cases "match_at t i")
      case None
      with False have eq: "findall_from t i = findall_from t (i + 1)"
        by (simp add: findall_from.simps [of t i])
      from "1.IH"(1) [OF False None] show ?thesis
      proof
        assume a: "findall_from t (i + 1) = [] \<and>
                   (\<forall>j. i + 1 \<le> j \<and> j \<le> length t \<longrightarrow> match_at t j = None)"
        have "match_at t j = None" if "i \<le> j \<and> j \<le> length t" for j
          using that a None by (cases "j = i") auto
        with a eq show ?thesis by simp
      next
        assume "\<exists>j k xs. i + 1 \<le> j \<and> match_at t j = Some k \<and>
                 (\<forall>j'. i + 1 \<le> j' \<and> j' < j \<longrightarrow> match_at t j' = None) \<and>
                 findall_from t (i + 1) = take k (drop j t) # xs"
        then obtain j k xs where j: "i + 1 \<le> j" "match_at t j = Some k"
          "\<forall>j'. i + 1 \<le> j' \<and> j' < j \<longrightarrow> match_at t j' = None"
          "findall_from t (i + 1) = take k (drop j t) # xs" by blast
        have "match_at t j' = None" if "i \<le> j' \<and> j' < j" for j'
          using that j(3) None by (cases "j' = i") auto
        with j eq have "i \<le> j \<and> match_at t j = Some k \<and>
              (\<forall>j'. i \<le> j' \<and> j' < j \<longrightarrow> match_at t j' = None) \<and>
              findall_from t i = take k (drop j t) # xs" by simp
        then show ?thesis by blast
      qed
    next
      case (Some k)
      with False have "findall_from t i = take k (drop i t) # findall_from t (i + k)"
        by (simp add: findall_from.simps [of t i])
      with Some have "i \<le> i \<and> match_at t i = Some k \<and>
              (\<forall>j'. i \<le> j' \<and> j' < i \<longrightarrow> match_at t j' = None) \<and>
              findall_from t i = take k (drop i t) # findall_from t (i + k)" by auto
      then show ?thesis by blast
    qed
  qed
qed

lemma delimited_digits_all: "delimited_digits t i k \<Longrightarrow> list_all is_digit (take k (drop i t))"
  by (simp add: delimited_digits_iff digits_at_def)

lemma delimited_digits_length: "delimited_digits t i k \<Longrightarrow> length (take k (drop i t)) = k"
  by (auto simp: delimited_digits_def)

lemma users_hint_first:
  assumes d: "delimited_digits t i k"
    and least: "\<forall>i' k'. delimited_digits t i' k' \<longrightarrow> i \<le> i'"
  shows "users_hint t = int_of_digits (take k (drop i t))"
proof -
  from d have m: "match_at t i = Some k" by (simp add: match_at_iff)
  from d have le: "i \<le> length t" by (simp add: delimited_digits_def)
  from findall_from_cases [of t 0] show ?thesis
  proof
    assume "findall_from t 0 = [] \<and> (\<forall>j. 0 \<le> j \<and> j \<le> length t \<longrightarrow> match_at t j = None)"
    with le m show ?thesis by auto
  next
    assume "\<exists>j k xs. 0 \<le> j \<and> match_at t j = Some k \<and>
              (\<forall>j'. 0 \<le> j' \<and> j' < j \<longrightarrow> match_at t j' = None) \<and>
              findall_from t 0 = take k (drop j t) # xs"
    then obtain j k2 xs where j: "match_at t j = Some k2"
      "\<forall>j'. 0 \<le> j' \<and> j' < j \<longrightarrow> match_at t j' = None"
      "findall_from t 0 = take k2 (drop j t) # xs" by blast
    from j(1) have "delimited_digits t j k2" by (simp add: match_at_iff)
    with least have "i \<le> j" by blast
    moreover have "\<not> i < j" using j(2) m by auto
    ultimately have "j = i" by simp
    with j(1) m have "k2 = k" by simp
    with \<open>j = i\<close> j(3) show ?thesis by (simp add: users_hint_def findall_def)
  qed
qed

lemma users_hint_none:
  assumes "\<forall>i k. \<not> delimited_digits t i k"
  shows "users_hint t = 1000"
proof -
  from assms have "match_at t j \<noteq> Some k" for j k by (simp add: match_at_iff)
  with findall_from_cases [of t 0] have "findall_from t 0 = []" by auto
  then show ?thesis by (simp add: users_hint_def findall_def)
qed

lemma users_hint_range: "0 \<le> users_hint t \<and> users_hint t < 1000000"
proof -
  from findall_from_cases [of t 0] show ?thesis
  proof
    assume "findall_from t 0 = [] \<and> (\<forall>j. 0 \<le> j \<and> j \<le> length t \<longrightarrow> match_at t j = None)"
    then show ?thesis by (simp add: users_hint_def findall_def)
  next
    assume "\<exists>j k xs. 0 \<le> j \<and> match_at t j = Some k \<and>
              (\<forall>j'. 0 \<le> j' \<and> j' < j \<longrightarrow> match_at t j' = None) \<and>
              findall_from t 0 = take k (drop j t) # xs"
    then obtain j k xs where j: "match_at t j = Some k"
      "findall_from t 0 = take k (drop j t) # xs" by blast
    from j(1) have d: "delimited_digits t j k" by (simp add: match_at_iff)
    let ?s = "take k (drop j t)"
    from d have "list_all is_digit ?s" by (rule delimited_digits_all)
    then have r: "0 \<le> int_of_digits ?s \<and> int_of_digits ?s < 10 ^ length ?s"
      by (rule int_of_digits_range)
    from d have len: "length ?s = k" by (rule delimited_digits_length)
    from d have "k \<le> 6" by (simp add: delimited_digits_def)
    then have "(10::int) ^ k \<le> 10 ^ 6" by (intro power_increasing) simp_all
    with r len have "0 \<le> int_of_digits ?s \<and> int_of_digits ?s < 1000000" by simp
    with j(2) show ?thesis by (simp add: users_hint_def findall_def)
  qed
qed

lemma users_extract: "users (extract text) = users_hint (lowered text)"
  by (simp add: extract_def Let_def)

lemma delimited_digits_prefix:
  assumes d: "delimited_digits (pre @ rest) i k"
    and i: "i < length pre"
    and w: "\<not> is_word (last pre)"
  shows "delimited_digits pre i k"
proof -
  from i have ne: "pre \<noteq> []" by auto
  have last: "(pre @ rest) ! (length pre - 1) = last pre"
    using ne by (simp add: nth_append last_conv_nth)
  have lt: "i + k < length pre"
  proof (rule ccontr)
    assume "\<not> i + k < length pre"
    with i have "length pre - 1 - i < k" and "i + (length pre - 1 - i) = length pre - 1" by auto
    with d have "is_digit ((pre @ rest) ! (length pre - 1))"
      unfolding delimited_digits_def by metis
    with last w show False by (simp add: is_digit_is_word)
  qed
  from d have k: "3 \<le> k" "k \<le> 6" by (simp_all add: delimited_digits_def)
  have digits: "\<forall>j<k. is_digit (pre ! (i + j))"
  proof (intro allI impI)
    fix j assume "j < k"
    with d have "is_digit ((pre @ rest) ! (i + j))" by (simp add: delimited_digits_def)
    moreover from \<open>j < k\<close> lt have "i + j < length pre" by simp
    ultimately show "is_digit (pre ! (i + j))" by (simp add: nth_append)
  qed
  have before: "i = 0 \<or> \<not> is_word (pre ! (i - 1))"
  proof (cases "i = 0")
    case True
    then show ?thesis by simp
  next
    case False
    with d have "\<not> is_word ((pre @ rest) ! (i - 1))" by (simp add: delimited_digits_def)
    moreover from i have "i - 1 < length pre" by simp
    ultimately show ?thesis by (simp add: nth_append)
  qed
  have after: "\<not> is_word (pre ! (i + k))"
  proof -
    from lt have "i + k \<noteq> length (pre @ rest)" by simp
    with d have "\<not> is_word ((pre @ rest) ! (i + k))" unfolding delimited_digits_def by blast
    with lt show ?thesis by (simp add: nth_append)
  qed
  from k lt digits before after show ?thesis by (simp add: delimited_digits_def)
qed

lemma users_2500:
  assumes t: "t = pre @ ''2500 employees'' @ suf"
    and w: "pre = [] \<or> \<not> is_word (last pre)"
    and none: "\<forall>i k. \<not> delimited_digits pre i k"
  shows "delimited_digits t (length pre) 4 \<and> (\<forall>i' k'. delimited_digits t i' k' \<longrightarrow> length pre \<le> i')
         \<and> int_of_digits (take 4 (drop (length pre) t)) = 2500"
proof (intro conjI allI impI)
  have nth: "t ! (length pre + j) = (''2500 employees'' @ suf) ! j" for j
    by (simp add: t nth_append)
  have digits: "\<forall>j<4. is_digit (t ! (length pre + j))"
  proof (intro allI impI)
    fix j :: nat assume "j < 4"
    then have "j = 0 \<or> j = 1 \<or> j = 2 \<or> j = 3" by auto
    then show "is_digit (t ! (length pre + j))"
      unfolding nth by (auto simp: is_digit_def)
  qed
  have before: "length pre = 0 \<or> \<not> is_word (t ! (length pre - 1))"
  proof (cases "pre = []")
    case True
    then show ?thesis by simp
  next
    case False
    with w have "\<not> is_word (last pre)" by simp
    moreover from False have "t ! (length pre - 1) = last pre"
      by (simp add: t nth_append last_conv_nth)
    ultimately show ?thesis by simp
  qed
  have after: "\<not> is_word (t ! (length pre + 4))"
    unfolding nth by (simp add: is_word_def is_digit_def)
  have len: "length pre + 4 \<le> length t" by (simp add: t)
  from digits before after len show "delimited_digits t (length pre) 4"
    by (simp add: delimited_digits_def)
  show "int_of_digits (take 4 (drop (length pre) t)) = 2500"
    by (simp add: t int_of_digits_def digit_val_def)
next
  fix i' k' assume d: "delimited_digits t i' k'"
  show "length pre \<le> i'"
  proof (rule ccontr)
    assume "\<not> length pre \<le> i'"
    then have i: "i' < length pre" by simp
    then have "pre \<noteq> []" by auto
    with w have "\<not> is_word (last pre)" by simp
    with d i have "delimited_digits pre i' k'"
      unfolding t by (intro delimited_digits_prefix [of pre _ i' k'])
    with none show False by blast
  qed
qed

text \<open>
  Claim C3, amended. For every text, the users of the extracted profile are an integer from 0
  to 999999: the value of the first standalone substring of 3 to 6 digits of the lowercased
  text, and 1000 when the lowercased text has no such substring. In particular the users are
  2500 when the lowercased text contains "2500 employees" at a place where no word character
  stands before it and no standalone substring of 3 to 6 digits comes earlier.
\<close>

theorem users_first_number:
  "0 \<le> users (extract text) \<and> users (extract text) < 1000000 \<and>
   (delimited_digits (lowered text) i k \<and>
    (\<forall>i' k'. delimited_digits (lowered text) i' k' \<longrightarrow> i \<le> i')
      \<longrightarrow> users (extract text) = int_of_digits (take k (drop i (lowered text)))) \<and>
   ((\<forall>i k. \<not> delimited_digits (lowered text) i k) \<longrightarrow> users (extract text) = 1000) \<and>
   (lowered text = pre @ ''2500 employees'' @ suf \<and>
    (pre = [] \<or> \<not> is_word (last pre)) \<and> (\<forall>i k. \<not> delimited_digits pre i k)
      \<longrightarrow> users (extract text) = 2500)"
proof (intro conjI impI)
  show "0 \<le> users (extract text)" and "users (extract text) < 1000000"
    using users_hint_range by (simp_all add: users_extract)
next
  assume "delimited_digits (lowered text) i k \<and>
    (\<forall>i' k'. delimited_digits (lowered text) i' k' \<longrightarrow> i \<le> i')"
  then have "users_hint (lowered text) = int_of_digits (take k (drop i (lowered text)))"
    by (intro users_hint_first) simp_all
  then show "users (extract text) = int_of_digits (take k (drop i (lowered text)))"
    by (simp add: users_extract)
next
  assume "\<forall>i k. \<not> delimited_digits (lowered text) i k"
  then have "users_hint (lowered text) = 1000" by (rule users_hint_none)
  then show "users (extract text) = 1000" by (simp add: users_extract)
next
  assume a: "lowered text = pre @ ''2500 employees'' @ suf \<and>
    (pre = [] \<or> \<not> is_word (last pre)) \<and> (\<forall>i k. \<not> delimited_digits pre i k)"
  let ?t = "lowered text"
  from a have f: "delimited_digits ?t (length pre) 4 \<and>
      (\<forall>i' k'. delimited_digits ?t i' k' \<longrightarrow> length pre \<le> i') \<and>
      int_of_digits (take 4 (drop (length pre) ?t)) = 2500"
    by (intro users_2500 [of ?t pre suf]) simp_all
  then have "users_hint ?t = int_of_digits (take 4 (drop (length pre) ?t))"
    by (intro users_hint_first) simp_all
  with f show "users (extract text) = 2500"
    by (simp add: users_extract)
qed

lemma findall_empty_no_delimited:
  assumes "findall t = []"
  shows "\<not> delimited_digits t i k"
proof
  assume d: "delimited_digits t i k"
  then have le: "i \<le> length t" by (simp add: delimited_digits_def)
  from d have m: "match_at t i = Some k" by (simp add: match_at_iff)
  from findall_from_cases [of t 0] assms
  have "\<forall>j. 0 \<le> j \<and> j \<le> length t \<longrightarrow> match_at t j = None"
    by (auto simp: findall_def)
  with le m show False by simp
qed

theorem users_first_number_witness:
  "(match_at (lowered (Some ''Plant with 2500 employees, 300 robots'')) 11 = Some 4 \<and>
    users (extract (Some ''Plant with 2500 employees, 300 robots'')) = int_of_digits ''2500'') \<and>
   (findall (lowered (Some ''No numbers here'')) = [] \<and>
    users (extract (Some ''No numbers here'')) = 1000) \<and>
   (lowered (Some ''Plant with 2500 employees, 300 robots'')
      = ''plant with '' @ ''2500 employees'' @ '', 300 robots'' \<and>
    \<not> is_word (last ''plant with '') \<and> findall ''plant with '' = [] \<and>
    users (extract (Some ''Plant with 2500 employees, 300 robots'')) = 2500)"
proof -
  let ?T = "Some ''Plant with 2500 employees, 300 robots''"
  let ?N = "Some ''No numbers here''"
  have e: "lowered ?T = ''plant with '' @ ''2500 employees'' @ '', 300 robots''"
    by code_simp
  have w0: "\<not> is_word (last ''plant with '')" by code_simp
  then have w: "''plant with '' = [] \<or> \<not> is_word (last ''plant with '')" by simp
  have fp: "findall ''plant with '' = []" by code_simp
  then have pre: "\<forall>i k. \<not> delimited_digits ''plant with '' i k"
    by (intro allI findall_empty_no_delimited)
  have len: "length ''plant with '' = 11" by simp
  from users_2500 [OF e w pre]
  have d: "delimited_digits (lowered ?T) 11 4"
    and least: "\<forall>i' k'. delimited_digits (lowered ?T) i' k' \<longrightarrow> 11 \<le> i'"
    unfolding len by blast+
  have fn: "findall (lowered ?N) = []" by code_simp
  then have none: "\<forall>i k. \<not> delimited_digits (lowered ?N) i k"
    by (intro allI findall_empty_no_delimited)
  have t: "take 4 (drop 11 (lowered ?T)) = ''2500''"
    by (simp add: e)
  from d least users_first_number [of ?T 11 4]
  have "users (extract ?T) = int_of_digits (take 4 (drop 11 (lowered ?T)))"
    by blast
  then have a: "users (extract ?T) = int_of_digits ''2500''" by (simp only: t)
  from none users_first_number [of ?N]
  have b: "users (extract ?N) = 1000" by blast
  from e w pre users_first_number [of ?T _ _ "''plant with ''" "'', 300 robots''"]
  have c: "users (extract ?T) = 2500" by blast
  from d have m: "match_at (lowered ?T) 11 = Some 4" by (simp add: match_at_iff)
  from m a fn b e w0 fp c show ?thesis by (intro conjI)
qed

text \<open>
  The word characters beyond ASCII count: a number that follows an accented letter or the
  micro sign is not standalone, a number that follows the section sign is.
\<close>

lemma users_latin1_examples:
  "users (extract (Some ([CHR 0xE9] @ ''2500 employees''))) = 1000 \<and>
   users (extract (Some (''500'' @ [CHR 0xB5] @ ''m sensors, 2500 users''))) = 2500 \<and>
   users (extract (Some ([CHR 0xA7] @ ''250 users''))) = 250"
  by code_simp

text \<open>
  The claim as it is written fails: the text "000 or 2500 employees" contains
  "2500 employees", and its users are 0, which is neither positive nor 2500.
\<close>

theorem users_positive_counterexample:
  "str_in ''2500 employees'' (text_or_empty (Some ''000 or 2500 employees'')) \<and>
   \<not> 0 < users (extract (Some ''000 or 2500 employees'')) \<and>
   users (extract (Some ''000 or 2500 employees'')) \<noteq> 2500"
  by code_simp

end
